theory Spec2Isabelle
  imports Complex_Main "HOL-Library.Sublist" "HOL-Library.Multiset"
begin

section \<open>Python strings\<close>

text \<open>
  A Python \<open>str\<close> is modelled as a \<open>string\<close>: every \<open>char\<close> stands for one code point
  below 256, so \<open>length\<close> is Python's \<open>len\<close> on such strings.
\<close>

definition py_lower_char :: "char \<Rightarrow> char" where
  \<comment> \<open>\<open>str.lower\<close> on one code point below 256: A-Z, and the Latin-1 capitals except the
      multiplication sign, move up by 32.\<close>
  "py_lower_char c =
     (let n = (of_char c :: nat)
      in if (65 \<le> n \<and> n \<le> 90) \<or> (192 \<le> n \<and> n \<le> 222 \<and> n \<noteq> 215)
         then char_of (n + 32) else c)"

definition py_lower :: "string \<Rightarrow> string" where
  "py_lower s = map py_lower_char s"

fun py_in :: "string \<Rightarrow> string \<Rightarrow> bool" where
  \<comment> \<open>\<open>pat in s\<close>: \<open>pat\<close> occurs in \<open>s\<close> as a contiguous substring.\<close>
  "py_in pat [] = (pat = [])"
| "py_in pat (c # cs) = (prefix pat (c # cs) \<or> py_in pat cs)"

section \<open>Category detection\<close>

definition detect_category_from_query :: "string \<Rightarrow> string" where
  \<comment> \<open>retriever/retrieval.py\<close>
  "detect_category_from_query query0 =
     (let query = py_lower query0
      in if py_in ''headphone'' query \<or> py_in ''earphone'' query \<or> py_in ''headset'' query
           then ''headphones''
         else if py_in ''mobile'' query \<or> py_in ''smartphone'' query \<or> py_in ''phone'' query
           then ''mobiles''
         else if py_in ''watch'' query \<or> py_in ''smartwatch'' query
           then ''smart_watches''
         else if py_in ''tv'' query \<or> py_in ''television'' query
           then ''tv''
         else ''unknown'')"

definition detect_category_from_query_ingestion :: "string \<Rightarrow> string" where
  \<comment> \<open>data_ingestion/ingestion_pipeline.py: the same chain without the \<open>smartwatch\<close> test\<close>
  "detect_category_from_query_ingestion query0 =
     (let query = py_lower query0
      in if py_in ''headphone'' query \<or> py_in ''earphone'' query \<or> py_in ''headset'' query
           then ''headphones''
         else if py_in ''mobile'' query \<or> py_in ''smartphone'' query \<or> py_in ''phone'' query
           then ''mobiles''
         else if py_in ''watch'' query
           then ''smart_watches''
         else if py_in ''tv'' query \<or> py_in ''television'' query
           then ''tv''
         else ''unknown'')"

text \<open>
  The classification as the specification words it: a closed table of categories with
  their keywords, scanned in order; the first category one of whose keywords occurs in the
  lower-cased query wins.
\<close>

definition category_keywords :: "(string \<times> string list) list" where
  "category_keywords =
     [(''headphones'', [''headphone'', ''earphone'', ''headset'']),
      (''mobiles'', [''mobile'', ''smartphone'', ''phone'']),
      (''smart_watches'', [''watch'', ''smartwatch'']),
      (''tv'', [''tv'', ''television''])]"

fun first_matching_category :: "(string \<times> string list) list \<Rightarrow> string \<Rightarrow> string" where
  "first_matching_category [] q = ''unknown''"
| "first_matching_category ((cat, kws) # rest) q =
     (if list_ex (\<lambda>kw. py_in kw q) kws then cat else first_matching_category rest q)"

definition classify_by_keywords :: "string \<Rightarrow> string" where
  "classify_by_keywords q = first_matching_category category_keywords (py_lower q)"

section \<open>Whitespace and integer parsing\<close>

definition py_isspace :: "char \<Rightarrow> bool" where
  \<comment> \<open>the code points below 256 that \<open>str.isspace\<close> accepts\<close>
  "py_isspace c =
     (let n = (of_char c :: nat)
      in (9 \<le> n \<and> n \<le> 13) \<or> (28 \<le> n \<and> n \<le> 32) \<or> n = 133 \<or> n = 160)"

definition py_strip :: "string \<Rightarrow> string" where
  "py_strip s = rev (dropWhile py_isspace (rev (dropWhile py_isspace s)))"

definition is_digit :: "char \<Rightarrow> bool" where
  "is_digit c = (let n = (of_char c :: nat) in 48 \<le> n \<and> n \<le> 57)"

definition digit_val :: "char \<Rightarrow> int" where
  "digit_val c = int (of_char c) - 48"

fun after_digit :: "int \<Rightarrow> string \<Rightarrow> int option" where
  \<comment> \<open>the rest of a decimal literal once a digit has been read: digits, or one underscore
      followed by a digit\<close>
  "after_digit acc [] = Some acc"
| "after_digit acc [c] = (if is_digit c then Some (10 * acc + digit_val c) else None)"
| "after_digit acc (c # d # cs) =
     (if is_digit c then after_digit (10 * acc + digit_val c) (d # cs)
      else if c = CHR ''_'' \<and> is_digit d then after_digit (10 * acc + digit_val d) cs
      else None)"

definition py_digits :: "string \<Rightarrow> int option" where
  "py_digits s =
     (case s of [] \<Rightarrow> None
      | c # cs \<Rightarrow> if is_digit c then after_digit (digit_val c) cs else None)"

definition py_int :: "string \<Rightarrow> int option" where
  \<comment> \<open>\<open>int(s)\<close> for a string: surrounding whitespace is ignored, one sign is allowed, the
      digits may be grouped by single underscores; \<open>None\<close> stands for ValueError. The
      interpreter's optional limit on the number of digits is not modelled.\<close>
  "py_int s =
     (case py_strip s of [] \<Rightarrow> None
      | c # cs \<Rightarrow>
          if c = CHR ''-'' then map_option uminus (py_digits cs)
          else if c = CHR ''+'' then py_digits cs
          else py_digits (c # cs))"

section \<open>Documents\<close>

text \<open>A cell of the review table or a metadata value: text, a number, or missing.\<close>

datatype py_value = Str string | Num real | NaN

record document =
  page_content :: string
  metadata :: "(string \<times> py_value) list"

definition metadata_get :: "document \<Rightarrow> string \<Rightarrow> py_value option" where
  \<comment> \<open>\<open>doc.metadata.get(key)\<close>\<close>
  "metadata_get doc key = map_of (metadata doc) key"

section \<open>Reranking\<close>

text \<open>
  An element of the list handed to \<open>rerank_documents\<close> is a \<open>Document\<close> or some other
  object, which the \<open>isinstance\<close> test skips.
\<close>

datatype candidate = Doc document | NotDocument

text \<open>
  The judge: \<open>llm.invoke(prompt).content.strip()\<close> before the final \<open>strip\<close>; \<open>None\<close>
  when the call or the access to its content raises.
\<close>

type_synonym llm = "string \<Rightarrow> string option"

definition rerank_prompt :: "string \<Rightarrow> string \<Rightarrow> string" where
  "rerank_prompt query content =
     ''Rate the relevance of the following review to the query '' @ [CHR 0x22] @ query
       @ [CHR 0x22] @ '' on a scale of 1 to 10.'' @ [CHR 0x0A]
       @ replicate 20 (CHR '' '') @ ''Review: '' @ content @ [CHR 0x0A]
       @ replicate 20 (CHR '' '') @ ''Respond with only the number.''"

definition judge_score :: "string \<Rightarrow> llm \<Rightarrow> document \<Rightarrow> int option" where
  \<comment> \<open>the body of the \<open>try\<close> for one document; \<open>None\<close> when it raises\<close>
  "judge_score query llm doc =
     (case llm (rerank_prompt query (page_content doc)) of
        None \<Rightarrow> None
      | Some content \<Rightarrow> py_int (py_strip content))"

fun score_documents :: "string \<Rightarrow> llm \<Rightarrow> candidate list \<Rightarrow> (document \<times> int) list" where
  \<comment> \<open>the loop that fills \<open>scored_docs\<close>\<close>
  "score_documents query llm [] = []"
| "score_documents query llm (NotDocument # rest) = score_documents query llm rest"
| "score_documents query llm (Doc doc # rest) =
     (case judge_score query llm doc of
        None \<Rightarrow> score_documents query llm rest
      | Some score \<Rightarrow> (doc, score) # score_documents query llm rest)"

definition py_sort_reverse :: "('a \<Rightarrow> int) \<Rightarrow> 'a list \<Rightarrow> 'a list" where
  \<comment> \<open>\<open>list.sort(key=..., reverse=True)\<close>: the list is reversed, sorted by a stable
      ascending sort, and reversed again\<close>
  "py_sort_reverse key xs = rev (sort_key key (rev xs))"

definition rerank_documents :: "string \<Rightarrow> candidate list \<Rightarrow> llm \<Rightarrow> document list" where
  "rerank_documents query docs llm =
     map fst (py_sort_reverse snd (score_documents query llm docs))"

section \<open>Category filtering of retrieved results\<close>

definition has_category :: "string \<Rightarrow> document \<Rightarrow> bool" where
  \<comment> \<open>\<open>doc.metadata.get("category") == detected_category\<close>\<close>
  "has_category detected doc = (metadata_get doc ''category'' = Some (Str detected))"

definition retrieval_category_filter :: "string \<Rightarrow> document list \<Rightarrow> document list" where
  \<comment> \<open>retriever/retrieval.py, steps 1 and 2 of the main flow: the list handed on to
      reranking\<close>
  "retrieval_category_filter detected results =
     (let category_filtered_results =
            (if detected \<noteq> ''unknown'' then filter (has_category detected) results
             else results)
      in if category_filtered_results = [] then results else category_filtered_results)"

definition ingestion_category_filter :: "string \<Rightarrow> document list \<Rightarrow> document list" where
  \<comment> \<open>data_ingestion/ingestion_pipeline.py, main flow: the results that are shown\<close>
  "ingestion_category_filter detected results =
     (if detected = ''unknown'' then results
      else (let filtered_results = filter (has_category detected) results
            in if filtered_results = [] then [] else filtered_results))"

section \<open>Chunking\<close>

definition chunk_size :: nat where
  "chunk_size = 512"

definition chunk_overlap :: nat where
  "chunk_overlap = 50"

fun py_split :: "char \<Rightarrow> string \<Rightarrow> string list" where
  \<comment> \<open>\<open>s.split(sep)\<close> for a separator of one character\<close>
  "py_split sep [] = [[]]"
| "py_split sep (c # cs) =
     (if c = sep then [] # py_split sep cs
      else (case py_split sep cs of [] \<Rightarrow> [[c]] | p # ps \<Rightarrow> (c # p) # ps))"

definition py_join :: "string \<Rightarrow> string list \<Rightarrow> string" where
  \<comment> \<open>\<open>separator.join(parts)\<close>\<close>
  "py_join separator parts =
     (case parts of [] \<Rightarrow> [] | p # ps \<Rightarrow> p @ concat (map (\<lambda>q. separator @ q) ps))"

text \<open>
  \<open>transform_data\<close> builds a \<open>RecursiveCharacterTextSplitter\<close> with \<open>chunk_size=512\<close>,
  \<open>chunk_overlap=50\<close>, \<open>length_function=len\<close> and the single separator \<open>";"\<close>. The class
  belongs to the text-splitting library; the definitions below follow its \<open>split_text\<close>
  for exactly these parameters and its defaults (the separator is kept at the start of the
  piece that follows it, merged chunks are stripped). With one separator there is no
  further separator to recurse on, so a piece that is not shorter than \<open>chunk_size\<close> is
  emitted as it is.
\<close>

datatype error = IndexError | ValueError | ProviderError | ConstructionError | TrainingError
  | UntrainedIndexError | UsageError | DimensionError | FileNotFoundError

definition split_text_with_regex :: "string \<Rightarrow> string list" where
  "split_text_with_regex text =
     (case py_split (CHR '';'') text of
        [] \<Rightarrow> []
      | p # ps \<Rightarrow> filter (\<lambda>s. s \<noteq> []) (p # map (\<lambda>q. CHR '';'' # q) ps))"

definition join_docs :: "string list \<Rightarrow> string \<Rightarrow> string option" where
  "join_docs docs separator =
     (let text = py_strip (py_join separator docs) in if text = [] then None else Some text)"

fun shrink_current :: "nat \<Rightarrow> nat \<Rightarrow> int \<Rightarrow> string list \<Rightarrow> error + int \<times> string list" where
  \<comment> \<open>the \<open>while\<close> loop of \<open>_merge_splits\<close>: pieces leave \<open>current_doc\<close> from the front until
      the overlap and the next piece fit\<close>
  "shrink_current len sep_len tot [] =
     (if tot > int chunk_overlap \<or> (tot + int len > int chunk_size \<and> tot > 0)
      then Inl IndexError else Inr (tot, []))"
| "shrink_current len sep_len tot (c # cs) =
     (if tot > int chunk_overlap
         \<or> (tot + int len + int sep_len > int chunk_size \<and> tot > 0)
      then shrink_current len sep_len
             (tot - int (length c + (if cs \<noteq> [] then sep_len else 0))) cs
      else Inr (tot, c # cs))"

definition append_joined :: "string list \<Rightarrow> string list \<Rightarrow> string \<Rightarrow> string list" where
  "append_joined docs current_doc separator =
     (case join_docs current_doc separator of None \<Rightarrow> docs | Some doc \<Rightarrow> docs @ [doc])"

fun merge_loop ::
  "string \<Rightarrow> string list \<Rightarrow> string list \<Rightarrow> string list \<Rightarrow> int \<Rightarrow> error + string list" where
  "merge_loop separator [] docs current_doc tot =
     Inr (append_joined docs current_doc separator)"
| "merge_loop separator (d # rest) docs current_doc tot =
     (let len = length d; sep_len = length separator
      in if tot + int len + int (if current_doc \<noteq> [] then sep_len else 0) > int chunk_size
         then
           (if current_doc \<noteq> [] then
              (case shrink_current len sep_len tot current_doc of
                 Inl e \<Rightarrow> Inl e
               | Inr (tot', current_doc') \<Rightarrow>
                   merge_loop separator rest (append_joined docs current_doc separator)
                     (current_doc' @ [d])
                     (tot' + int len + int (if current_doc' \<noteq> [] then sep_len else 0)))
            else merge_loop separator rest docs [d] (tot + int len))
         else merge_loop separator rest docs (current_doc @ [d])
                (tot + int len + int (if current_doc \<noteq> [] then sep_len else 0)))"

definition merge_splits :: "string list \<Rightarrow> string \<Rightarrow> error + string list" where
  "merge_splits splits separator = merge_loop separator splits [] [] 0"

definition flush_good :: "string list \<Rightarrow> error + string list" where
  \<comment> \<open>\<open>_merge_splits(_good_splits, "")\<close> when there are good splits\<close>
  "flush_good good_splits = (if good_splits \<noteq> [] then merge_splits good_splits [] else Inr [])"

fun split_pieces :: "string list \<Rightarrow> string list \<Rightarrow> error + string list" where
  \<comment> \<open>the loop of \<open>_split_text\<close> over the splits, with \<open>_good_splits\<close> as accumulator\<close>
  "split_pieces [] good_splits = flush_good good_splits"
| "split_pieces (s # ss) good_splits =
     (if length s < chunk_size then split_pieces ss (good_splits @ [s])
      else (case flush_good good_splits of
              Inl e \<Rightarrow> Inl e
            | Inr merged \<Rightarrow>
                (case split_pieces ss [] of
                   Inl e \<Rightarrow> Inl e
                 | Inr final_chunks \<Rightarrow> Inr (merged @ [s] @ final_chunks))))"

definition split_text :: "string \<Rightarrow> error + string list" where
  "split_text text = split_pieces (split_text_with_regex text) []"

section \<open>Transforming review rows into documents\<close>

text \<open>
  A row of the combined table. \<open>URL\<close> and \<open>Category\<close> are \<open>None\<close> when the table has no
  such column; \<open>Reviews\<close> is \<open>None\<close> for a missing cell and otherwise the text that
  \<open>str\<close> gives for the cell.
\<close>

record row =
  Title :: py_value
  Rating :: py_value
  Price :: py_value
  URL :: "py_value option"
  Category :: "py_value option"
  Reviews :: "string option"

definition row_metadata :: "row \<Rightarrow> (string \<times> py_value) list" where
  "row_metadata r =
     [(''product_name'', Title r),
      (''product_rating'', Rating r),
      (''product_price'', Price r),
      (''product_url'', (case URL r of None \<Rightarrow> Str [] | Some u \<Rightarrow> u)),
      (''category'', (case Category r of None \<Rightarrow> Str ''unknown'' | Some c \<Rightarrow> c))]"

definition review_documents ::
  "(string \<times> py_value) list \<Rightarrow> string \<Rightarrow> error + document list" where
  \<comment> \<open>one turn of the loop over \<open>review_texts\<close>\<close>
  "review_documents md single_review0 =
     (let single_review = py_strip single_review0
      in if single_review = [] then Inr []
         else if length single_review > 512 then
           (case split_text single_review of
              Inl e \<Rightarrow> Inl e
            | Inr chunks \<Rightarrow>
                Inr (map (\<lambda>chunk. \<lparr>page_content = py_strip chunk, metadata = md\<rparr>) chunks))
         else Inr [\<lparr>page_content = single_review, metadata = md\<rparr>])"

fun reviews_loop :: "(string \<times> py_value) list \<Rightarrow> string list \<Rightarrow> error + document list" where
  "reviews_loop md [] = Inr []"
| "reviews_loop md (t # ts) =
     (case review_documents md t of
        Inl e \<Rightarrow> Inl e
      | Inr ds \<Rightarrow> (case reviews_loop md ts of Inl e \<Rightarrow> Inl e | Inr rest \<Rightarrow> Inr (ds @ rest)))"

fun rows_loop :: "row list \<Rightarrow> error + document list" where
  "rows_loop [] = Inr []"
| "rows_loop (r # rs) =
     (case Reviews r of
        None \<Rightarrow> rows_loop rs
      | Some text \<Rightarrow>
          (case reviews_loop (row_metadata r) (py_split (CHR '';'') text) of
             Inl e \<Rightarrow> Inl e
           | Inr ds \<Rightarrow> (case rows_loop rs of Inl e \<Rightarrow> Inl e | Inr rest \<Rightarrow> Inr (ds @ rest))))"

definition transform_data :: "row list \<Rightarrow> error + document list" where
  \<comment> \<open>the final \<open>documents[0]\<close> raises on an empty list\<close>
  "transform_data product_data =
     (case rows_loop product_data of
        Inl e \<Rightarrow> Inl e
      | Inr documents \<Rightarrow> if documents = [] then Inl IndexError else Inr documents)"

section \<open>Arrays of vectors\<close>

text \<open>
  A vector is a list of reals standing for its float32 components; the rounding of
  \<open>astype("float32")\<close> is not modelled. An array is one-dimensional (shape \<open>(n,)\<close>) or
  two-dimensional (shape \<open>(n, d)\<close>, \<open>n\<close> rows of length \<open>d\<close>).
\<close>

type_synonym vec = "real list"

datatype ndarray = Array1 "real list" | Array2 nat "vec list"

definition np_array :: "vec list \<Rightarrow> error + ndarray" where
  \<comment> \<open>\<open>np.array(vectors).astype("float32")\<close>: no rows give shape \<open>(0,)\<close>, rows of one
      length a matrix, rows of different lengths a ValueError\<close>
  "np_array vectors =
     (case vectors of
        [] \<Rightarrow> Inr (Array1 [])
      | v # vs \<Rightarrow>
          if list_all (\<lambda>w. length w = length v) vs then Inr (Array2 (length v) vectors)
          else Inl ValueError)"

definition shape1 :: "ndarray \<Rightarrow> error + nat" where
  \<comment> \<open>\<open>a.shape[1]\<close>\<close>
  "shape1 a = (case a of Array1 xs \<Rightarrow> Inl IndexError | Array2 d rows \<Rightarrow> Inr d)"

definition nrows :: "ndarray \<Rightarrow> nat" where
  \<comment> \<open>\<open>a.shape[0]\<close>\<close>
  "nrows a = (case a of Array1 xs \<Rightarrow> length xs | Array2 d rows \<Rightarrow> length rows)"

definition array_rows :: "ndarray \<Rightarrow> vec list" where
  "array_rows a = (case a of Array1 xs \<Rightarrow> [] | Array2 d rows \<Rightarrow> rows)"

section \<open>The quantized index\<close>

text \<open>
  The index class belongs to the similarity-search library. Its centroids and codebooks
  are floating-point data on which no property stated here depends: the record keeps the
  construction parameters, the training flag and the added vectors in the order of
  addition.
\<close>

record faiss_index =
  idx_d :: nat
  idx_nlist :: nat
  idx_M :: nat
  idx_nbits :: nat
  is_trained :: bool
  idx_vectors :: "vec list"

definition ntotal :: "faiss_index \<Rightarrow> nat" where
  "ntotal idx = length (idx_vectors idx)"

definition IndexIVFPQ :: "nat \<Rightarrow> nat \<Rightarrow> nat \<Rightarrow> nat \<Rightarrow> error + faiss_index" where
  \<comment> \<open>Modelled from the spec: the library's constructor is not part of the repository.
      The index is constructed empty and untrained; the vector's dimensions are cut into
      \<open>M\<close> slices of equal width, so a dimension that is not a multiple of \<open>M\<close> is refused.
      The coarse quantizer handed to the constructor holds no data of its own.\<close>
  "IndexIVFPQ d nlist m nbits =
     (if m = 0 \<or> d mod m \<noteq> 0 then Inl ConstructionError
      else Inr \<lparr>idx_d = d, idx_nlist = nlist, idx_M = m, idx_nbits = nbits,
                is_trained = False, idx_vectors = []\<rparr>)"

definition train :: "faiss_index \<Rightarrow> vec list \<Rightarrow> error + faiss_index" where
  \<comment> \<open>Modelled from the spec: the library's training routine is not part of the
      repository. Training requires at least \<open>nlist\<close> vectors; with fewer it is reported as
      an error; otherwise the index is marked trained.\<close>
  "train idx xs =
     (if length xs < idx_nlist idx then Inl TrainingError
      else Inr (idx\<lparr>is_trained := True\<rparr>))"

definition add :: "faiss_index \<Rightarrow> vec list \<Rightarrow> error + faiss_index" where
  \<comment> \<open>Modelled from the spec: the library's \<open>add\<close> is not part of the repository.
      \<open>trained\<close> must be true before any vector is added, which is an error of its own
      kind; the vectors are appended in their order.\<close>
  "add idx xs =
     (if \<not> is_trained idx then Inl UntrainedIndexError
      else Inr (idx\<lparr>idx_vectors := idx_vectors idx @ xs\<rparr>))"

definition search ::
  "(vec \<Rightarrow> vec \<Rightarrow> real) \<Rightarrow> faiss_index \<Rightarrow> vec \<Rightarrow> int \<Rightarrow> error + (nat \<times> real) list" where
  \<comment> \<open>Modelled from the spec: the library's search is not part of the repository.
      \<open>search(query_vector, k)\<close> gives (position, approximate distance) pairs ascending
      by distance, at most \<open>k\<close> of them, ties broken by ascending position; an untrained
      index, a vector of another dimension and \<open>k <= 0\<close> are errors. The approximate
      distance is the parameter \<open>adist\<close>.\<close>
  "search adist idx q k =
     (if \<not> is_trained idx then Inl TrainingError
      else if length q \<noteq> idx_d idx then Inl DimensionError
      else if k \<le> 0 then Inl UsageError
      else Inr (take (nat k)
             (sort_key snd
                (map (\<lambda>i. (i, adist q (idx_vectors idx ! i))) [0..<ntotal idx]))))"

text \<open>
  The order in which results are compared below: a smaller distance first, and for equal
  distances the smaller position first.
\<close>

definition by_distance_then_position :: "nat \<times> real \<Rightarrow> nat \<times> real \<Rightarrow> bool" where
  "by_distance_then_position a b = (snd a < snd b \<or> (snd a = snd b \<and> fst a < fst b))"

section \<open>Storing the vectors\<close>

fun py_str_nat :: "nat \<Rightarrow> string" where
  \<comment> \<open>\<open>str(i)\<close> for a natural number\<close>
  "py_str_nat n =
     (if n < 10 then [char_of (48 + n)]
      else py_str_nat (n div 10) @ [char_of (48 + n mod 10)])"

declare py_str_nat.simps [simp del]

text \<open>
  The vector store object: the index, the docstore dictionary and the dictionary from
  index positions to docstore keys, both in insertion order.
\<close>

record vstore =
  index :: faiss_index
  docstore :: "(string \<times> document) list"
  index_to_docstore_id :: "(nat \<times> string) list"

text \<open>
  What a run reads and writes outside its arguments: the file \<open>cached_embeddings.npy\<close>,
  what is saved under \<open>faiss_index_path\<close>, the batches sent to the embedding provider and
  the arrays written to the cache file.
\<close>

record world =
  cache_file :: "ndarray option"
  saved_index :: "vstore option"
  provider_calls :: "string list list"
  cache_writes :: "ndarray list"

text \<open>The embedding provider: \<open>embed_documents\<close>; \<open>None\<close> when the call raises.\<close>

type_synonym provider = "string list \<Rightarrow> vec list option"

definition get_vectors :: "provider \<Rightarrow> string list \<Rightarrow> world \<Rightarrow> (error + ndarray) \<times> world" where
  \<comment> \<open>the \<open>if os.path.exists(cache_file)\<close> block\<close>
  "get_vectors embed_documents texts w =
     (case cache_file w of
        Some cached \<Rightarrow> (Inr cached, w)
      | None \<Rightarrow>
          (let w1 = w\<lparr>provider_calls := provider_calls w @ [texts]\<rparr>
           in case embed_documents texts of
                None \<Rightarrow> (Inl ProviderError, w1)
              | Some vectors \<Rightarrow>
                  (case np_array vectors of
                     Inl e \<Rightarrow> (Inl e, w1)
                   | Inr vectors_np \<Rightarrow>
                       (Inr vectors_np,
                        w1\<lparr>cache_file := Some vectors_np,
                           cache_writes := cache_writes w1 @ [vectors_np]\<rparr>))))"

definition build_index :: "ndarray \<Rightarrow> error + faiss_index" where
  \<comment> \<open>from \<open>dim = vectors_np.shape[1]\<close> to \<open>index.add(vectors_np)\<close>\<close>
  "build_index vectors_np =
     (case shape1 vectors_np of
        Inl e \<Rightarrow> Inl e
      | Inr d \<Rightarrow>
          (case IndexIVFPQ d 40 8 8 of
             Inl e \<Rightarrow> Inl e
           | Inr index0 \<Rightarrow>
               (case (if \<not> is_trained index0 then train index0 (array_rows vectors_np)
                      else Inr index0) of
                  Inl e \<Rightarrow> Inl e
                | Inr index1 \<Rightarrow> add index1 (array_rows vectors_np))))"

text \<open>The index that a build over \<open>rows\<close> of dimension \<open>d\<close> returns when it succeeds.\<close>

definition trained_index :: "nat \<Rightarrow> vec list \<Rightarrow> faiss_index" where
  "trained_index d rows =
     \<lparr>idx_d = d, idx_nlist = 40, idx_M = 8, idx_nbits = 8, is_trained = True,
      idx_vectors = rows\<rparr>"

definition make_vstore :: "faiss_index \<Rightarrow> document list \<Rightarrow> vstore" where
  "make_vstore idx documents =
     \<lparr>index = idx,
      docstore = map (\<lambda>(i, doc). (py_str_nat i, doc)) (enumerate 0 documents),
      index_to_docstore_id = map (\<lambda>i. (i, py_str_nat i)) [0..<length documents]\<rparr>"

definition store_in_vector_db ::
  "provider \<Rightarrow> document list \<Rightarrow> world \<Rightarrow> (error + vstore) \<times> world" where
  "store_in_vector_db embed_documents documents w =
     (let texts = map page_content documents
      in case get_vectors embed_documents texts w of
           (Inl e, w1) \<Rightarrow> (Inl e, w1)
         | (Inr vectors_np, w1) \<Rightarrow>
             (case build_index vectors_np of
                Inl e \<Rightarrow> (Inl e, w1)
              | Inr idx \<Rightarrow>
                  (let vs = make_vstore idx documents
                   in (Inr vs, w1\<lparr>saved_index := Some vs\<rparr>))))"

definition load_faiss_index :: "world \<Rightarrow> error + vstore" where
  \<comment> \<open>\<open>FAISS.load_local(self.faiss_index_path, ...)\<close>: what was saved there\<close>
  "load_faiss_index w =
     (case saved_index w of None \<Rightarrow> Inl FileNotFoundError | Some vs \<Rightarrow> Inr vs)"

definition docstore_get :: "vstore \<Rightarrow> nat \<Rightarrow> document option" where
  \<comment> \<open>the document of an index position: through \<open>index_to_docstore_id\<close>, then the
      docstore\<close>
  "docstore_get vs i =
     (case map_of (index_to_docstore_id vs) i of
        None \<Rightarrow> None
      | Some key \<Rightarrow> map_of (docstore vs) key)"

section \<open>Example data\<close>

text \<open>
  Concrete documents, judges, providers and file-system states on which the properties
  below are evaluated.
\<close>

definition doc_A :: document where
  "doc_A = \<lparr>page_content = ''A'', metadata = []\<rparr>"

definition doc_B :: document where
  "doc_B = \<lparr>page_content = ''B'', metadata = []\<rparr>"

definition doc_C :: document where
  "doc_C = \<lparr>page_content = ''C'', metadata = []\<rparr>"


definition judge_399 :: llm where
  "judge_399 prompt = (if prompt = rerank_prompt ''q'' ''A'' then Some ''3'' else Some '' 9 '')"

definition judge_42 :: llm where
  "judge_42 prompt = Some ''42''"

definition judge_mixed :: llm where
  "judge_mixed prompt =
     (if prompt = rerank_prompt ''q'' ''A'' then Some ''seven''
      else if prompt = rerank_prompt ''q'' ''B'' then None
      else Some ''-5'')"

definition doc_headphone :: document where
  "doc_headphone = \<lparr>page_content = ''Great bass'', metadata = [(''category'', Str ''headphones'')]\<rparr>"

definition long_review :: string where
  "long_review = replicate 513 (CHR ''a'')"

definition long_row :: row where
  "long_row = \<lparr>Title = Str ''Phone X'', Rating = Num 4, Price = Str ''999'', URL = None,
     Category = None, Reviews = Some long_review\<rparr>"

definition example_index :: faiss_index where
  "example_index = \<lparr>idx_d = 1, idx_nlist = 1, idx_M = 1, idx_nbits = 8, is_trained = True,
     idx_vectors = [[3], [1], [5], [1], [3]]\<rparr>"

definition example_dist :: "vec \<Rightarrow> vec \<Rightarrow> real" where
  "example_dist q v = \<bar>hd q - hd v\<bar>"

definition world_empty :: world where
  "world_empty = \<lparr>cache_file = None, saved_index = None, provider_calls = [], cache_writes = []\<rparr>"

definition cached_300 :: ndarray where
  "cached_300 = Array2 8 (replicate 300 (replicate 8 0))"

definition world_cached :: world where
  "world_cached = \<lparr>cache_file = Some cached_300, saved_index = None, provider_calls = [],
     cache_writes = []\<rparr>"

definition provider_example :: provider where
  "provider_example texts = Some (map (\<lambda>t. replicate 8 (real (length t))) texts)"

definition docs_two :: "document list" where
  "docs_two = [\<lparr>page_content = ''good sound'', metadata = []\<rparr>,
               \<lparr>page_content = ''poor battery life'', metadata = []\<rparr>]"

definition docs_300 :: "document list" where
  "docs_300 = map (\<lambda>i. \<lparr>page_content = py_str_nat i, metadata = []\<rparr>) [0..<300]"

definition stale_vstore :: vstore where
  "stale_vstore = make_vstore (trained_index 8 (replicate 300 (replicate 8 0))) docs_two"

definition vectors_300 :: "vec list" where
  "vectors_300 = map (\<lambda>t. replicate 8 (real (length t))) (map page_content docs_300)"

definition fresh_vstore :: vstore where
  "fresh_vstore = make_vstore (trained_index 8 vectors_300) docs_300"

definition vectors_two :: ndarray where
  "vectors_two = Array2 8 [replicate 8 10, replicate 8 17]"

section \<open>Properties of category detection\<close>

lemma py_in_sublist: "py_in pat s = sublist pat s"
  by (induction s) (auto simp: sublist_Cons_right)

lemma smartwatch_contains_watch: "py_in ''smartwatch'' s \<Longrightarrow> py_in ''watch'' s"
proof -
  assume a: "py_in ''smartwatch'' s"
  have "sublist ''watch'' (''smart'' @ ''watch'')"
    by (rule sublist_append_leftI)
  then have "sublist ''watch'' ''smartwatch''" by simp
  moreover have "sublist ''smartwatch'' s" using a by (simp add: py_in_sublist)
  ultimately have "sublist ''watch'' s" by (rule sublist_order.order_trans)
  then show ?thesis by (simp add: py_in_sublist)
qed

lemma detect_refines: "detect_category_from_query q = classify_by_keywords q"
  by (simp add: detect_category_from_query_def classify_by_keywords_def
      category_keywords_def Let_def)

lemma detect_ingestion_same:
  "detect_category_from_query_ingestion q = detect_category_from_query q"
  using smartwatch_contains_watch [of "py_lower q"]
  by (auto simp add: detect_category_from_query_def detect_category_from_query_ingestion_def Let_def)

lemma detect_lower: "py_lower q' = py_lower q \<Longrightarrow>
   detect_category_from_query q' = detect_category_from_query q"
  by (simp add: detect_category_from_query_def Let_def)

text \<open>
  C9. Category detection is keyword matching over the closed table
  \<open>category_keywords\<close> on the lower-cased query, the first category in table order with a
  matching keyword winning; both copies of the function compute it; queries that agree
  after lower-casing get the same category; when no keyword occurs the category is
  \<open>unknown\<close> and the retrieval flow leaves the results unfiltered.
\<close>

theorem category_detection:
  "detect_category_from_query q = classify_by_keywords q
   \<and> detect_category_from_query_ingestion q = classify_by_keywords q
   \<and> (py_lower q' = py_lower q \<longrightarrow>
        detect_category_from_query q' = detect_category_from_query q)
   \<and> (\<not> list_ex (\<lambda>(cat, kws). list_ex (\<lambda>kw. py_in kw (py_lower q)) kws) category_keywords
        \<longrightarrow> detect_category_from_query q = ''unknown''
            \<and> retrieval_category_filter (detect_category_from_query q) results = results)"
proof (intro conjI impI)
  show "detect_category_from_query q = classify_by_keywords q" by (rule detect_refines)
  show "detect_category_from_query_ingestion q = classify_by_keywords q"
    by (simp add: detect_ingestion_same detect_refines)
  show "detect_category_from_query q' = detect_category_from_query q"
    if "py_lower q' = py_lower q" using that by (rule detect_lower)
  assume n: "\<not> list_ex (\<lambda>(cat, kws). list_ex (\<lambda>kw. py_in kw (py_lower q)) kws) category_keywords"
  then show u: "detect_category_from_query q = ''unknown''"
    by (simp add: detect_category_from_query_def category_keywords_def Let_def)
  show "retrieval_category_filter (detect_category_from_query q) results = results"
    by (simp add: u retrieval_category_filter_def)
qed

theorem category_detection_witness:
  "detect_category_from_query ''Any good SmartPhone or Watch?'' = ''mobiles''
   \<and> detect_category_from_query ''any good smartphone or watch?'' = ''mobiles''
   \<and> detect_category_from_query_ingestion ''Any good SmartPhone or Watch?'' = ''mobiles''
   \<and> detect_category_from_query ''Fresh MANGOES'' = ''unknown''
   \<and> retrieval_category_filter (detect_category_from_query ''Fresh MANGOES'')
        [\<lparr>page_content = ''x'', metadata = []\<rparr>] = [\<lparr>page_content = ''x'', metadata = []\<rparr>]"
proof -
  have l: "py_lower ''any good smartphone or watch?'' = py_lower ''Any good SmartPhone or Watch?''"
    by code_simp
  have c: "classify_by_keywords ''Any good SmartPhone or Watch?'' = ''mobiles''"
    by code_simp
  have n: "\<not> list_ex (\<lambda>(cat, kws). list_ex (\<lambda>kw. py_in kw (py_lower ''Fresh MANGOES'')) kws)
             category_keywords"
    by code_simp
  note t1 = category_detection [of "''Any good SmartPhone or Watch?''"
      "''any good smartphone or watch?''" "[]"]
  note t2 = category_detection [of "''Fresh MANGOES''" "''Fresh MANGOES''"
      "[\<lparr>page_content = ''x'', metadata = []\<rparr>]"]
  have a: "detect_category_from_query ''Any good SmartPhone or Watch?'' = ''mobiles''"
    using t1 c by metis
  have b: "detect_category_from_query ''any good smartphone or watch?'' = ''mobiles''"
    using t1 l a by metis
  have d: "detect_category_from_query_ingestion ''Any good SmartPhone or Watch?'' = ''mobiles''"
    using t1 c by metis
  from a b d t2 n show ?thesis by blast
qed

section \<open>Properties of reranking\<close>

lemma py_sort_reverse_stable:
  "filter (\<lambda>x. key x = s) (py_sort_reverse key xs) = filter (\<lambda>x. key x = s) xs"
proof -
  have "filter (\<lambda>x. key x = s) (py_sort_reverse key xs)
        = rev (filter (\<lambda>x. key x = s) (sort_key key (rev xs)))"
    by (simp add: py_sort_reverse_def rev_filter)
  also have "\<dots> = rev (filter (\<lambda>x. key x = s) (rev xs))"
    by (simp only: sort_key_stable)
  also have "\<dots> = filter (\<lambda>x. key x = s) xs"
    by (simp add: rev_filter)
  finally show ?thesis .
qed

lemma py_sort_reverse_descending: "sorted (rev (map key (py_sort_reverse key xs)))"
  by (simp add: py_sort_reverse_def rev_map)

lemma py_sort_reverse_mset: "mset (py_sort_reverse key xs) = mset xs"
  by (simp add: py_sort_reverse_def)

text \<open>
  C8. \<open>rerank_documents\<close> returns the scored documents sorted by descending score, and
  documents with equal scores keep the order in which they were scored, which is the
  order of retrieval; candidates \<open>[A, B, C]\<close> scored \<open>[3, 9, 9]\<close> come out as \<open>[B, C, A]\<close>.
\<close>

theorem rerank_stable_descending:
  "(\<exists>ranked. rerank_documents query docs llm = map fst ranked
       \<and> mset ranked = mset (score_documents query llm docs)
       \<and> sorted (rev (map snd ranked))
       \<and> (\<forall>s. filter (\<lambda>x. snd x = s) ranked
               = filter (\<lambda>x. snd x = s) (score_documents query llm docs)))
   \<and> (judge_score query llm a = Some 3 \<and> judge_score query llm b = Some 9
        \<and> judge_score query llm c = Some 9
       \<longrightarrow> rerank_documents query [Doc a, Doc b, Doc c] llm = [b, c, a])"
proof (intro conjI impI)
  let ?r = "py_sort_reverse snd (score_documents query llm docs)"
  have "rerank_documents query docs llm = map fst ?r"
    by (simp add: rerank_documents_def)
  moreover have "mset ?r = mset (score_documents query llm docs)"
    by (rule py_sort_reverse_mset)
  moreover have "sorted (rev (map snd ?r))"
    by (rule py_sort_reverse_descending)
  moreover have "\<forall>s. filter (\<lambda>x. snd x = s) ?r
               = filter (\<lambda>x. snd x = s) (score_documents query llm docs)"
    by (simp add: py_sort_reverse_stable)
  ultimately show "\<exists>ranked. rerank_documents query docs llm = map fst ranked
       \<and> mset ranked = mset (score_documents query llm docs)
       \<and> sorted (rev (map snd ranked))
       \<and> (\<forall>s. filter (\<lambda>x. snd x = s) ranked
               = filter (\<lambda>x. snd x = s) (score_documents query llm docs))"
    by blast
next
  assume "judge_score query llm a = Some 3 \<and> judge_score query llm b = Some 9
        \<and> judge_score query llm c = Some 9"
  then show "rerank_documents query [Doc a, Doc b, Doc c] llm = [b, c, a]"
    by (simp add: rerank_documents_def py_sort_reverse_def)
qed

theorem rerank_stable_descending_witness:
  "judge_score ''q'' judge_399 doc_A = Some 3 \<and> judge_score ''q'' judge_399 doc_B = Some 9
   \<and> judge_score ''q'' judge_399 doc_C = Some 9
   \<and> rerank_documents ''q'' [Doc doc_A, Doc doc_B, Doc doc_C] judge_399 = [doc_B, doc_C, doc_A]"
proof -
  have a: "judge_score ''q'' judge_399 doc_A = Some 3" by code_simp
  have b: "judge_score ''q'' judge_399 doc_B = Some 9" by code_simp
  have c: "judge_score ''q'' judge_399 doc_C = Some 9" by code_simp
  from a b c rerank_stable_descending [of "''q''" "[]" judge_399 doc_A doc_B doc_C]
  show ?thesis by blast
qed

lemma score_documents_kept:
  "map fst (score_documents query llm docs)
   = [d. Doc d \<leftarrow> docs, judge_score query llm d \<noteq> None]"
  by (induction query llm docs rule: score_documents.induct) (auto split: option.splits)

lemma score_documents_scores:
  "(d, s) \<in> set (score_documents query llm docs) \<Longrightarrow> judge_score query llm d = Some s"
  by (induction query llm docs rule: score_documents.induct) (auto split: option.splits)

text \<open>
  C4, amended. \<open>rerank_documents\<close> returns exactly the \<open>Document\<close> candidates whose judge
  call succeeds and whose stripped response \<open>int\<close> accepts, whatever the integer is: no
  range is checked. Every other candidate is dropped and the remaining ones are still
  ranked.
\<close>

theorem rerank_keeps_parsed:
  "mset (rerank_documents query docs llm)
     = mset [d. Doc d \<leftarrow> docs, judge_score query llm d \<noteq> None]
   \<and> (judge_score query llm d \<noteq> None \<longleftrightarrow>
        (\<exists>content s. llm (rerank_prompt query (page_content d)) = Some content
            \<and> py_int (py_strip content) = Some s))"
proof
  have "mset (rerank_documents query docs llm)
        = mset (map fst (score_documents query llm docs))"
    by (simp add: rerank_documents_def py_sort_reverse_mset)
  then show "mset (rerank_documents query docs llm)
     = mset [d. Doc d \<leftarrow> docs, judge_score query llm d \<noteq> None]"
    by (simp only: score_documents_kept)
  show "judge_score query llm d \<noteq> None \<longleftrightarrow>
        (\<exists>content s. llm (rerank_prompt query (page_content d)) = Some content
            \<and> py_int (py_strip content) = Some s)"
    by (auto simp: judge_score_def split: option.splits)
qed

theorem rerank_keeps_parsed_witness:
  "rerank_documents ''q'' [Doc doc_A, NotDocument, Doc doc_B, Doc doc_C] judge_mixed = [doc_C]
   \<and> judge_score ''q'' judge_mixed doc_A = None
   \<and> judge_score ''q'' judge_mixed doc_B = None
   \<and> judge_score ''q'' judge_mixed doc_C = Some (- 5)"
proof -
  have a: "judge_score ''q'' judge_mixed doc_A = None" by code_simp
  have b: "judge_score ''q'' judge_mixed doc_B = None" by code_simp
  have c: "judge_score ''q'' judge_mixed doc_C = Some (- 5)" by code_simp
  have "mset (rerank_documents ''q'' [Doc doc_A, NotDocument, Doc doc_B, Doc doc_C] judge_mixed)
        = mset [doc_C]"
    using rerank_keeps_parsed [of "''q''" "[Doc doc_A, NotDocument, Doc doc_B, Doc doc_C]" judge_mixed doc_C]
      a b c by simp
  then have "rerank_documents ''q'' [Doc doc_A, NotDocument, Doc doc_B, Doc doc_C] judge_mixed = [doc_C]"
    by (metis mset_single_iff_right mset.simps(1) mset.simps(2))
  with a b c show ?thesis by blast
qed

text \<open>
  A judge that answers \<open>42\<close>: the response is an integer outside \<open>[1, 10]\<close>, and the
  candidate is kept.
\<close>

theorem rerank_range_counterexample:
  "judge_42 (rerank_prompt ''q'' (page_content doc_A)) = Some ''42''
   \<and> py_int ''42'' = Some 42
   \<and> \<not> (1 \<le> (42::int) \<and> (42::int) \<le> 10)
   \<and> rerank_documents ''q'' [Doc doc_A] judge_42 = [doc_A]"
  by code_simp

section \<open>Properties of category filtering and chunking\<close>

text \<open>
  C5, amended. In the retriever's flow (retriever/retrieval.py), for a query whose detected
  category is not \<open>unknown\<close>, when no retrieved result has that category the unfiltered
  results are handed on.
\<close>

theorem retrieval_category_fallback:
  "detect_category_from_query q \<noteq> ''unknown'' \<Longrightarrow>
   filter (has_category (detect_category_from_query q)) results = [] \<Longrightarrow>
   retrieval_category_filter (detect_category_from_query q) results = results"
  by (simp add: retrieval_category_filter_def)

theorem retrieval_category_fallback_witness:
  "detect_category_from_query ''cheap smartwatch under 2000'' \<noteq> ''unknown''
   \<and> filter (has_category (detect_category_from_query ''cheap smartwatch under 2000''))
         [doc_headphone] = []
   \<and> retrieval_category_filter (detect_category_from_query ''cheap smartwatch under 2000'')
         [doc_headphone] = [doc_headphone]"
proof -
  have a: "detect_category_from_query ''cheap smartwatch under 2000'' \<noteq> ''unknown''"
    by code_simp
  have b: "filter (has_category (detect_category_from_query ''cheap smartwatch under 2000''))
         [doc_headphone] = []"
    by code_simp
  from a b retrieval_category_fallback [OF a b] show ?thesis by blast
qed

text \<open>
  The query flow at the end of data_ingestion/ingestion_pipeline.py has no fallback: with
  a detected category and no result of that category it shows nothing.
\<close>

theorem ingestion_category_counterexample:
  "detect_category_from_query_ingestion ''Can you suggest phones under 20000?'' = ''mobiles''
   \<and> filter (has_category ''mobiles'') [doc_headphone] = []
   \<and> ingestion_category_filter
        (detect_category_from_query_ingestion ''Can you suggest phones under 20000?'')
        [doc_headphone] = []
   \<and> [doc_headphone] \<noteq> []"
  by code_simp

lemma py_split_nonempty: "py_split sep s \<noteq> []"
  by (induction s) (auto split: list.splits)

lemma py_split_pieces: "p \<in> set (py_split sep s) \<Longrightarrow> sep \<notin> set p"
proof (induction s arbitrary: p)
  case Nil
  then show ?case by simp
next
  case (Cons c cs)
  then show ?case
    by (cases "py_split sep cs") (auto simp: py_split_nonempty split: if_splits)
qed

lemma py_split_absent: "sep \<notin> set s \<Longrightarrow> py_split sep s = [s]"
  by (induction s) auto

lemma set_py_strip: "set (py_strip s) \<subseteq> set s"
proof -
  have "set (py_strip s) \<subseteq> set (dropWhile py_isspace s)"
    unfolding py_strip_def using set_dropWhileD by fastforce
  also have "\<dots> \<subseteq> set s" using set_dropWhileD by fastforce
  finally show ?thesis .
qed

lemma split_text_no_separator:
  assumes "CHR '';'' \<notin> set t" and "chunk_size \<le> length t"
  shows "split_text t = Inr [t]"
proof -
  have ne: "t \<noteq> []" using assms(2) by (auto simp: chunk_size_def)
  have "split_text_with_regex t = [t]"
    using assms(1) ne by (simp add: split_text_with_regex_def py_split_absent)
  then show ?thesis
    using assms(2) by (simp add: split_text_def flush_good_def)
qed

lemma py_strip_idem: "py_strip (py_strip s) = py_strip s"
proof -
  let ?u = "dropWhile py_isspace s"
  let ?t = "dropWhile py_isspace (rev ?u)"
  have t: "dropWhile py_isspace ?t = ?t" by simp
  have "rev ?t = [] \<or> \<not> py_isspace (hd (rev ?t))"
  proof (cases "?t = []")
    case True
    then show ?thesis by simp
  next
    case False
    have u: "?u \<noteq> []"
    proof
      assume "?u = []"
      then have "?t = []" by (simp only: rev.simps dropWhile.simps)
      with False show False by simp
    qed
    have "takeWhile py_isspace (rev ?u) @ ?t = rev ?u" by (rule takeWhile_dropWhile_id)
    then have "last (rev ?u) = last ?t" using False by (metis last_appendR)
    then have "hd (rev ?t) = hd ?u" using False u by (simp add: hd_rev last_rev)
    moreover have "\<not> py_isspace (hd ?u)" using u by (rule hd_dropWhile)
    ultimately show ?thesis by simp
  qed
  then have r: "dropWhile py_isspace (rev ?t) = rev ?t"
    by (simp only: dropWhile_eq_self_iff)
  have "py_strip (rev ?t) = rev (dropWhile py_isspace (rev (dropWhile py_isspace (rev ?t))))"
    by (simp only: py_strip_def)
  also have "\<dots> = rev (dropWhile py_isspace (rev (rev ?t)))" by (simp only: r)
  also have "\<dots> = rev ?t" by (simp only: rev_rev_ident t)
  finally show ?thesis by (simp only: py_strip_def)
qed

lemma long_piece_unsplit:
  assumes "r \<in> set (py_split (CHR '';'') text)" and "512 < length (py_strip r)"
  shows "split_text (py_strip r) = Inr [py_strip r]"
    and "review_documents md r = Inr [\<lparr>page_content = py_strip r, metadata = md\<rparr>]"
proof -
  have "CHR '';'' \<notin> set r" using assms(1) by (rule py_split_pieces)
  then have "CHR '';'' \<notin> set (py_strip r)" using set_py_strip by blast
  moreover have "chunk_size \<le> length (py_strip r)" using assms(2) by (simp add: chunk_size_def)
  ultimately show s: "split_text (py_strip r) = Inr [py_strip r]"
    by (rule split_text_no_separator)
  have ne: "py_strip r \<noteq> []" using assms(2) by auto
  show "review_documents md r = Inr [\<lparr>page_content = py_strip r, metadata = md\<rparr>]"
    using assms(2) ne s by (simp add: review_documents_def Let_def py_strip_idem)
qed

lemma py_strip_long_review: "py_strip long_review = long_review"
proof -
  have a: "\<not> py_isspace (CHR ''a'')" by (simp add: py_isspace_def)
  have "dropWhile py_isspace (replicate 513 (CHR ''a'')) = replicate 513 (CHR ''a'')"
    using a by (simp add: dropWhile_eq_self_iff)
  then show ?thesis by (simp add: py_strip_def long_review_def)
qed

text \<open>
  C3. The bound of 512 characters on sub-chunks, which \<open>transform_data\<close> sets out to
  enforce, is missed: a review of 513 letters is longer than the limit, the splitter
  returns it whole, and \<open>transform_data\<close> produces one document whose content is the
  whole review, 513 characters long.
\<close>

theorem chunk_limit_missed:
  "512 < length long_review
   \<and> split_text long_review = Inr [long_review]
   \<and> review_documents (row_metadata long_row) long_review
       = Inr [\<lparr>page_content = long_review, metadata = row_metadata long_row\<rparr>]
   \<and> transform_data [long_row]
       = Inr [\<lparr>page_content = long_review, metadata = row_metadata long_row\<rparr>]
   \<and> length long_review = 513"
proof -
  have l: "length long_review = 513" by (simp add: long_review_def)
  have n: "CHR '';'' \<notin> set long_review" by (simp add: long_review_def)
  have p: "py_split (CHR '';'') long_review = [long_review]" using n by (rule py_split_absent)
  have m: "long_review \<in> set (py_split (CHR '';'') long_review)" by (simp add: p)
  have g: "512 < length (py_strip long_review)" by (simp add: py_strip_long_review l)
  have s: "split_text long_review = Inr [long_review]"
    using long_piece_unsplit(1) [OF m g] by (simp add: py_strip_long_review)
  have r: "review_documents (row_metadata long_row) long_review
       = Inr [\<lparr>page_content = long_review, metadata = row_metadata long_row\<rparr>]"
    using long_piece_unsplit(2) [OF m g] by (simp add: py_strip_long_review)
  have v: "Reviews long_row = Some long_review" by (simp add: long_row_def)
  have "rows_loop [long_row]
       = Inr [\<lparr>page_content = long_review, metadata = row_metadata long_row\<rparr>]"
    by (simp add: v p r)
  then have t: "transform_data [long_row]
       = Inr [\<lparr>page_content = long_review, metadata = row_metadata long_row\<rparr>]"
    by (simp add: transform_data_def)
  from l s r t show ?thesis by simp
qed

section \<open>Properties of search\<close>

lemma insort_by_distance:
  "sorted_wrt by_distance_then_position ys \<Longrightarrow> \<forall>y\<in>set ys. fst x < fst y \<Longrightarrow>
   sorted_wrt by_distance_then_position (insort_key snd x ys)"
proof (induction ys)
  case Nil
  then show ?case by simp
next
  case (Cons y ys)
  show ?case
  proof (cases "snd x \<le> snd y")
    case True
    have "by_distance_then_position x y"
      using True Cons.prems(2) by (auto simp: by_distance_then_position_def)
    moreover have "\<forall>z\<in>set ys. by_distance_then_position x z"
    proof
      fix z assume z: "z \<in> set ys"
      then have "by_distance_then_position y z" using Cons.prems(1) by simp
      then show "by_distance_then_position x z"
        using True Cons.prems(2) z by (auto simp: by_distance_then_position_def)
    qed
    ultimately show ?thesis using True Cons.prems(1) by simp
  next
    case False
    have "by_distance_then_position y x"
      using False by (auto simp: by_distance_then_position_def)
    moreover have "sorted_wrt by_distance_then_position (insort_key snd x ys)"
      using Cons by simp
    ultimately show ?thesis using False Cons.prems(1)
      by (auto simp: set_insort_key)
  qed
qed

lemma sort_by_distance:
  "sorted_wrt (\<lambda>a b. fst a < fst b) xs \<Longrightarrow>
   sorted_wrt by_distance_then_position (sort_key snd xs)"
proof (induction xs)
  case Nil
  then show ?case by simp
next
  case (Cons x xs)
  then show ?case by (auto intro!: insort_by_distance)
qed

lemma positions_ascending:
  "sorted_wrt (\<lambda>a b. fst a < fst b) (map (\<lambda>i. (i, f i)) [0..<n])"
  by (simp add: sorted_wrt_map)

text \<open>
  C7. On a trained index, for a query vector of the index's dimension and \<open>k > 0\<close>,
  \<open>search\<close> returns its results in non-decreasing approximate distance, at most
  \<open>min k vector_count\<close> of them, results of equal distance in ascending position, each
  result being a position of the index with its distance.
\<close>

theorem search_ordered:
  "is_trained idx \<Longrightarrow> length q = idx_d idx \<Longrightarrow> 0 < k \<Longrightarrow>
   (\<exists>res. search adist idx q k = Inr res
      \<and> sorted (map snd res)
      \<and> length res \<le> min (nat k) (ntotal idx)
      \<and> sorted_wrt by_distance_then_position res
      \<and> (\<forall>(i, dist) \<in> set res. i < ntotal idx \<and> dist = adist q (idx_vectors idx ! i)))"
proof -
  assume t: "is_trained idx" and d: "length q = idx_d idx" and k: "0 < k"
  let ?all = "map (\<lambda>i. (i, adist q (idx_vectors idx ! i))) [0..<ntotal idx]"
  let ?res = "take (nat k) (sort_key snd ?all)"
  have r: "search adist idx q k = Inr ?res"
    using t d k by (simp add: search_def)
  have s1: "sorted (map snd (sort_key snd ?all))" by (rule sorted_sort_key)
  have "map snd ?res = take (nat k) (map snd (sort_key snd ?all))" by (simp add: take_map)
  then have a: "sorted (map snd ?res)" using s1 by (simp add: sorted_wrt_take)
  have b: "length ?res \<le> min (nat k) (ntotal idx)" by simp
  have "sorted_wrt by_distance_then_position (sort_key snd ?all)"
    by (rule sort_by_distance) (rule positions_ascending)
  then have c: "sorted_wrt by_distance_then_position ?res" by (rule sorted_wrt_take)
  have "set ?res \<subseteq> set ?all" using set_take_subset [of "nat k" "sort_key snd ?all"] by simp
  then have e: "\<forall>(i, dist) \<in> set ?res. i < ntotal idx \<and> dist = adist q (idx_vectors idx ! i)"
    by auto
  from r a b c e show ?thesis by blast
qed

theorem search_ordered_witness:
  "is_trained example_index \<and> length [2::real] = idx_d example_index \<and> (0::int) < 4
   \<and> search example_dist example_index [2] 4 = Inr [(0, 1), (1, 1), (3, 1), (4, 1)]
   \<and> (\<exists>res. search example_dist example_index [2] 4 = Inr res
      \<and> sorted (map snd res)
      \<and> length res \<le> min (nat 4) (ntotal example_index)
      \<and> sorted_wrt by_distance_then_position res)"
proof -
  have a: "is_trained example_index" by (simp add: example_index_def)
  have b: "length [2::real] = idx_d example_index" by (simp add: example_index_def)
  have c: "(0::int) < 4" by simp
  have v: "search example_dist example_index [2] 4 = Inr [(0, 1), (1, 1), (3, 1), (4, 1)]"
    by code_simp
  from a b c v search_ordered [OF a b c, of example_dist] show ?thesis by blast
qed

section \<open>Properties of the ingestion run\<close>

lemma py_str_nat_nonempty: "py_str_nat n \<noteq> []"
  by (subst py_str_nat.simps) simp

lemma digit_char_inj:
  "a < 10 \<Longrightarrow> b < 10 \<Longrightarrow> (char_of (48 + a) :: char) = char_of (48 + b) \<Longrightarrow> a = (b::nat)"
proof -
  assume a: "a < 10" and b: "b < 10" and e: "(char_of (48 + a) :: char) = char_of (48 + b)"
  have "of_char (char_of (48 + a) :: char) = (of_char (char_of (48 + b) :: char) :: nat)"
    using e by simp
  then have "(48 + a) mod 256 = (48 + b) mod 256" by (simp add: of_char_of)
  then show ?thesis using a b by simp
qed

lemma py_str_nat_inj: "py_str_nat m = py_str_nat n \<Longrightarrow> m = n"
proof (induction m arbitrary: n rule: py_str_nat.induct)
  case (1 m)
  show ?case
  proof (cases "m < 10")
    case True
    show ?thesis
    proof (cases "n < 10")
      case n: True
      from "1.prems" True n have "(char_of (48 + m) :: char) = char_of (48 + n)"
        by (simp add: py_str_nat.simps [of m] py_str_nat.simps [of n])
      then show ?thesis using True n by (rule digit_char_inj [rotated 2])
    next
      case False
      from "1.prems" True False show ?thesis
        using py_str_nat_nonempty [of "n div 10"]
        by (simp add: py_str_nat.simps [of m] py_str_nat.simps [of n])
    qed
  next
    case False
    show ?thesis
    proof (cases "n < 10")
      case True
      from "1.prems" True False show ?thesis
        using py_str_nat_nonempty [of "m div 10"]
        by (simp add: py_str_nat.simps [of m] py_str_nat.simps [of n])
    next
      case n: False
      from "1.prems" False n
      have e: "py_str_nat (m div 10) = py_str_nat (n div 10)"
        and c: "(char_of (48 + m mod 10) :: char) = char_of (48 + n mod 10)"
        by (simp_all add: py_str_nat.simps [of m] py_str_nat.simps [of n])
      have "m div 10 = n div 10" using "1.IH" [OF False e] .
      moreover have "m mod 10 = n mod 10"
        using c by (intro digit_char_inj) simp_all
      ultimately show ?thesis by (metis div_mult_mod_eq)
    qed
  qed
qed

lemma py_str_nat_distinct: "distinct (map py_str_nat [0..<n])"
  by (simp add: distinct_map inj_on_def) (blast dest: py_str_nat_inj)

lemma docstore_keys:
  "map fst (docstore (make_vstore idx docs)) = map py_str_nat [0..<length docs]"
proof -
  have z: "map fst (zip [0..<length docs] docs) = [0..<length docs]"
    by (rule map_fst_zip) simp
  have "map (\<lambda>x. py_str_nat (fst x)) (zip [0..<length docs] docs)
        = map py_str_nat (map fst (zip [0..<length docs] docs))"
    by (simp only: map_map comp_def)
  then have "map (\<lambda>x. py_str_nat (fst x)) (zip [0..<length docs] docs)
        = map py_str_nat [0..<length docs]"
    by (simp only: z)
  then show ?thesis
    by (simp add: make_vstore_def enumerate_eq_zip case_prod_unfold comp_def del: upt_Suc)
qed

lemma docstore_values: "map snd (docstore (make_vstore idx docs)) = docs"
proof -
  have z: "map snd (zip [0..<length docs] docs) = docs"
    by (rule map_snd_zip) simp
  then show ?thesis
    by (simp add: make_vstore_def enumerate_eq_zip case_prod_unfold comp_def del: upt_Suc)
qed

lemma docstore_lookup:
  "i < length docs \<Longrightarrow> map_of (docstore (make_vstore idx docs)) (py_str_nat i) = Some (docs ! i)"
proof -
  assume i: "i < length docs"
  let ?ds = "docstore (make_vstore idx docs)"
  have len: "length ?ds = length docs" by (simp add: make_vstore_def)
  have d: "distinct (map fst ?ds)" by (simp only: docstore_keys py_str_nat_distinct)
  have "?ds ! i = (map fst ?ds ! i, map snd ?ds ! i)" using i len by simp
  also have "\<dots> = (py_str_nat i, docs ! i)"
    using i by (simp only: docstore_keys docstore_values) simp
  finally have "(py_str_nat i, docs ! i) \<in> set ?ds"
    using i len by (metis nth_mem)
  then show ?thesis using d by simp
qed

lemma position_lookup:
  "map_of (index_to_docstore_id (make_vstore idx docs)) i
     = (if i < length docs then Some (py_str_nat i) else None)"
proof -
  have "map_of (map (\<lambda>i. (i, py_str_nat i)) [0..<n]) i
          = (if i < n then Some (py_str_nat i) else None)" for n
    by (induction n) (auto simp: map_add_def less_Suc_eq split: option.splits)
  then show ?thesis by (simp add: make_vstore_def del: upt_Suc)
qed

lemma docstore_get_make:
  "docstore_get (make_vstore idx docs) i = (if i < length docs then Some (docs ! i) else None)"
  by (simp add: docstore_get_def position_lookup docstore_lookup)

lemma build_index_rows:
  "build_index a = Inr idx \<Longrightarrow>
   (\<exists>d rows. a = Array2 d rows \<and> 40 \<le> length rows \<and> idx = trained_index d rows)"
  by (cases a)
    (auto simp: build_index_def shape1_def IndexIVFPQ_def train_def add_def array_rows_def
      trained_index_def split: if_splits)

lemma build_index_ok:
  "40 \<le> length rows \<Longrightarrow> d mod 8 = 0 \<Longrightarrow>
   build_index (Array2 d rows) = Inr (trained_index d rows)"
  by (simp add: build_index_def shape1_def IndexIVFPQ_def train_def add_def array_rows_def
      trained_index_def)

lemma build_index_few:
  "nrows a < 40 \<Longrightarrow>
   build_index a
     = Inl (case a of
              Array1 xs \<Rightarrow> IndexError
            | Array2 d rows \<Rightarrow> if d mod 8 = 0 then TrainingError else ConstructionError)"
  by (cases a)
    (simp_all add: build_index_def shape1_def IndexIVFPQ_def train_def array_rows_def nrows_def)

lemma store_success:
  "store_in_vector_db prov docs w = (Inr vs, w') \<Longrightarrow>
   (\<exists>a w1 idx. get_vectors prov (map page_content docs) w = (Inr a, w1)
      \<and> build_index a = Inr idx \<and> vs = make_vstore idx docs
      \<and> w' = w1\<lparr>saved_index := Some vs\<rparr>)"
  by (auto simp: store_in_vector_db_def Let_def split: prod.splits sum.splits)

lemma get_vectors_cached:
  "cache_file w = Some cached \<Longrightarrow> get_vectors prov texts w = (Inr cached, w)"
  by (simp add: get_vectors_def)

lemma get_vectors_fresh:
  "cache_file w = None \<Longrightarrow> prov texts = Some vectors \<Longrightarrow>
   get_vectors prov texts w = (Inr a, w1) \<Longrightarrow>
   np_array vectors = Inr a
   \<and> w1 = w\<lparr>provider_calls := provider_calls w @ [texts], cache_file := Some a,
            cache_writes := cache_writes w @ [a]\<rparr>"
  by (auto simp: get_vectors_def Let_def split: sum.splits)

lemma np_array_rows: "np_array vectors = Inr (Array2 d rows) \<Longrightarrow> rows = vectors"
  by (auto simp: np_array_def split: list.splits if_splits)

lemma np_array_uniform:
  "vectors \<noteq> [] \<Longrightarrow> \<forall>v\<in>set vectors. length v = d \<Longrightarrow>
   np_array vectors = Inr (Array2 d vectors)"
  by (cases vectors) (auto simp: np_array_def list_all_iff)

lemma get_vectors_saved:
  "get_vectors prov texts w = (r, w1) \<Longrightarrow> saved_index w1 = saved_index w"
  by (auto simp: get_vectors_def Let_def split: option.splits sum.splits)

lemma stale_run:
  "store_in_vector_db provider_example docs_two world_cached
     = (Inr stale_vstore, world_cached\<lparr>saved_index := Some stale_vstore\<rparr>)"
proof -
  have c: "cache_file world_cached = Some cached_300" by (simp add: world_cached_def)
  have b: "build_index cached_300 = Inr (trained_index 8 (replicate 300 (replicate 8 0)))"
    unfolding cached_300_def by (rule build_index_ok) simp_all
  show ?thesis
    by (simp add: store_in_vector_db_def get_vectors_cached [OF c] b stale_vstore_def Let_def)
qed

lemma short_run:
  "store_in_vector_db provider_example docs_two world_empty
     = (Inl TrainingError,
        world_empty\<lparr>provider_calls := [map page_content docs_two],
                    cache_file := Some vectors_two, cache_writes := [vectors_two]\<rparr>)"
  by (simp add: store_in_vector_db_def get_vectors_def world_empty_def provider_example_def
      docs_two_def np_array_def Let_def vectors_two_def build_index_def shape1_def IndexIVFPQ_def
      train_def array_rows_def)

lemma length_docs_300: "length docs_300 = 300"
  by (simp add: docs_300_def)

lemma fresh_run:
  "store_in_vector_db provider_example docs_300 world_empty
     = (Inr fresh_vstore,
        world_empty\<lparr>provider_calls := [map page_content docs_300],
                    cache_file := Some (Array2 8 vectors_300),
                    cache_writes := [Array2 8 vectors_300],
                    saved_index := Some fresh_vstore\<rparr>)"
proof -
  have l: "length vectors_300 = 300" by (simp add: vectors_300_def length_docs_300)
  then have ne: "vectors_300 \<noteq> []" by auto
  have u: "\<forall>v\<in>set vectors_300. length v = 8" by (auto simp: vectors_300_def)
  have n: "np_array vectors_300 = Inr (Array2 8 vectors_300)"
    using ne u by (rule np_array_uniform)
  have p: "provider_example (map page_content docs_300) = Some vectors_300"
    by (simp add: provider_example_def vectors_300_def)
  have b: "build_index (Array2 8 vectors_300) = Inr (trained_index 8 vectors_300)"
    by (rule build_index_ok) (simp_all add: l)
  have g: "get_vectors provider_example (map page_content docs_300) world_empty
     = (Inr (Array2 8 vectors_300),
        world_empty\<lparr>provider_calls := [map page_content docs_300],
                    cache_file := Some (Array2 8 vectors_300),
                    cache_writes := [Array2 8 vectors_300]\<rparr>)"
    by (simp add: get_vectors_def Let_def world_empty_def) (simp add: p n)
  show ?thesis
    by (simp add: store_in_vector_db_def g b fresh_vstore_def Let_def)
qed

text \<open>
  C2, amended. The embedding cache is one file, looked up by its path and not by fragment
  content. When the file exists the run makes no call to the embedding provider and
  leaves the file as it is, without writing it; when it does not exist the provider is
  called exactly once, with the texts of all documents in order, and if it answers with
  a well-shaped batch that array is written to the cache file.
\<close>

theorem cache_file_gate:
  "store_in_vector_db prov docs w = (res, w') \<Longrightarrow>
   (cache_file w \<noteq> None \<longrightarrow>
      provider_calls w' = provider_calls w \<and> cache_writes w' = cache_writes w
      \<and> cache_file w' = cache_file w)
   \<and> (cache_file w = None \<longrightarrow>
      provider_calls w' = provider_calls w @ [map page_content docs]
      \<and> (prov (map page_content docs) = None \<longrightarrow>
            res = Inl ProviderError \<and> cache_file w' = None \<and> cache_writes w' = cache_writes w)
      \<and> (\<forall>vectors a. prov (map page_content docs) = Some vectors \<and> np_array vectors = Inr a
            \<longrightarrow> cache_file w' = Some a \<and> cache_writes w' = cache_writes w @ [a]))"
  by (auto simp: store_in_vector_db_def get_vectors_def Let_def
      split: option.splits sum.splits prod.splits)

theorem cache_file_gate_witness:
  "cache_file world_cached \<noteq> None
   \<and> provider_calls (snd (store_in_vector_db provider_example docs_two world_cached)) = []
   \<and> cache_writes (snd (store_in_vector_db provider_example docs_two world_cached)) = []
   \<and> cache_file world_empty = None
   \<and> provider_calls (snd (store_in_vector_db provider_example docs_two world_empty))
        = [map page_content docs_two]
   \<and> cache_writes (snd (store_in_vector_db provider_example docs_two world_empty))
        = [vectors_two]"
proof -
  have c: "cache_file world_cached \<noteq> None" by (simp add: world_cached_def)
  have e: "cache_file world_empty = None" by (simp add: world_empty_def)
  have p: "provider_example (map page_content docs_two) = Some [replicate 8 10, replicate 8 17]"
    by (simp add: provider_example_def docs_two_def)
  have n: "np_array [replicate 8 10, replicate 8 17] = Inr vectors_two"
    by (simp add: np_array_def vectors_two_def)
  have pc: "provider_calls world_cached = []" "cache_writes world_cached = []"
    by (simp_all add: world_cached_def)
  have pe: "provider_calls world_empty = []" "cache_writes world_empty = []"
    by (simp_all add: world_empty_def)
  note g1 = cache_file_gate [of provider_example docs_two world_cached
      "fst (store_in_vector_db provider_example docs_two world_cached)"
      "snd (store_in_vector_db provider_example docs_two world_cached)", OF prod.collapse [symmetric]]
  note g2 = cache_file_gate [of provider_example docs_two world_empty
      "fst (store_in_vector_db provider_example docs_two world_empty)"
      "snd (store_in_vector_db provider_example docs_two world_empty)", OF prod.collapse [symmetric]]
  from g1 c pc have a1:
    "provider_calls (snd (store_in_vector_db provider_example docs_two world_cached)) = []"
    "cache_writes (snd (store_in_vector_db provider_example docs_two world_cached)) = []"
    by simp_all
  from g2 e pe p n have a2:
    "provider_calls (snd (store_in_vector_db provider_example docs_two world_empty))
        = [map page_content docs_two]"
    "cache_writes (snd (store_in_vector_db provider_example docs_two world_empty))
        = [vectors_two]"
    by simp_all
  from c e a1 a2 show ?thesis by blast
qed

text \<open>
  A run with a cache file of 300 rows and two documents whose embeddings are not in it:
  the run succeeds without any provider call and without writing a cache snapshot.
\<close>

theorem cache_snapshot_counterexample:
  "cache_file world_cached = Some cached_300
   \<and> provider_example (map page_content docs_two) \<noteq> Some (array_rows cached_300)
   \<and> fst (store_in_vector_db provider_example docs_two world_cached) = Inr stale_vstore
   \<and> provider_calls (snd (store_in_vector_db provider_example docs_two world_cached)) = []
   \<and> cache_writes (snd (store_in_vector_db provider_example docs_two world_cached)) = []"
proof -
  have l: "length (array_rows cached_300) = 300" by (simp add: cached_300_def array_rows_def)
  have p: "provider_example (map page_content docs_two)
                   = Some [replicate 8 10, replicate 8 17]"
    by (simp add: provider_example_def docs_two_def)
  have "provider_example (map page_content docs_two) \<noteq> Some (array_rows cached_300)"
  proof
    assume "provider_example (map page_content docs_two) = Some (array_rows cached_300)"
    with p have "[replicate 8 (10::real), replicate 8 17] = array_rows cached_300" by simp
    then have "length [replicate 8 (10::real), replicate 8 17] = length (array_rows cached_300)"
      by (rule arg_cong)
    with l show False by simp
  qed
  then show ?thesis by (simp add: stale_run) (simp add: world_cached_def)
qed


lemma empty_run:
  "store_in_vector_db provider_example [] world_empty
     = (Inl IndexError,
        world_empty\<lparr>provider_calls := [[]], cache_file := Some (Array1 []),
                    cache_writes := [Array1 []]\<rparr>)"
  by (simp add: store_in_vector_db_def get_vectors_def world_empty_def provider_example_def
      np_array_def Let_def build_index_def shape1_def)

text \<open>
  C6, amended. A vector batch with fewer than \<open>nlist = 40\<close> vectors never yields an
  index: the run returns an error and saves nothing under the index path. The error is
  the training step's when the batch is a two-dimensional array whose dimension is a
  multiple of 8; a batch without a second dimension fails before, at \<open>shape[1]\<close>, and a
  dimension that is not a multiple of 8 fails in the constructor.
\<close>

theorem training_needs_nlist:
  "get_vectors prov (map page_content docs) w = (Inr a, w1) \<Longrightarrow> nrows a < 40 \<Longrightarrow>
   build_index a
     = Inl (case a of
              Array1 xs \<Rightarrow> IndexError
            | Array2 d rows \<Rightarrow> if d mod 8 = 0 then TrainingError else ConstructionError)
   \<and> store_in_vector_db prov docs w
     = (Inl (case a of
               Array1 xs \<Rightarrow> IndexError
             | Array2 d rows \<Rightarrow> if d mod 8 = 0 then TrainingError else ConstructionError),
        w1)
   \<and> saved_index w1 = saved_index w"
proof -
  assume g: "get_vectors prov (map page_content docs) w = (Inr a, w1)" and n: "nrows a < 40"
  have b: "build_index a
     = Inl (case a of
              Array1 xs \<Rightarrow> IndexError
            | Array2 d rows \<Rightarrow> if d mod 8 = 0 then TrainingError else ConstructionError)"
    using n by (rule build_index_few)
  have s: "store_in_vector_db prov docs w
     = (Inl (case a of
               Array1 xs \<Rightarrow> IndexError
             | Array2 d rows \<Rightarrow> if d mod 8 = 0 then TrainingError else ConstructionError),
        w1)"
    by (simp add: store_in_vector_db_def Let_def g b)
  have v: "saved_index w1 = saved_index w" using g by (rule get_vectors_saved)
  from b s v show ?thesis by blast
qed

theorem training_needs_nlist_witness:
  "get_vectors provider_example (map page_content docs_two) world_empty
     = (Inr vectors_two,
        world_empty\<lparr>provider_calls := [map page_content docs_two],
                    cache_file := Some vectors_two, cache_writes := [vectors_two]\<rparr>)
   \<and> nrows vectors_two < 40
   \<and> build_index vectors_two = Inl TrainingError
   \<and> store_in_vector_db provider_example docs_two world_empty
     = (Inl TrainingError,
        world_empty\<lparr>provider_calls := [map page_content docs_two],
                    cache_file := Some vectors_two, cache_writes := [vectors_two]\<rparr>)"
proof -
  have g: "get_vectors provider_example (map page_content docs_two) world_empty
     = (Inr vectors_two,
        world_empty\<lparr>provider_calls := [map page_content docs_two],
                    cache_file := Some vectors_two, cache_writes := [vectors_two]\<rparr>)"
    by (simp add: get_vectors_def world_empty_def provider_example_def docs_two_def
        np_array_def vectors_two_def Let_def)
  have n: "nrows vectors_two < 40" by (simp add: nrows_def vectors_two_def)
  have c: "(case vectors_two of
              Array1 xs \<Rightarrow> IndexError
            | Array2 d rows \<Rightarrow> if d mod 8 = 0 then TrainingError else ConstructionError)
           = TrainingError"
    by (simp add: vectors_two_def)
  from training_needs_nlist [OF g n] c g n show ?thesis by simp
qed

text \<open>
  A run over no documents with no cache file: the provider returns no vectors, the array
  has shape \<open>(0,)\<close>, and the run stops at \<open>shape[1]\<close> with an IndexError, before the
  index exists and before the training step.
\<close>

theorem empty_batch_counterexample:
  "provider_example (map page_content []) = Some []
   \<and> np_array [] = Inr (Array1 [])
   \<and> nrows (Array1 []) < 40
   \<and> fst (store_in_vector_db provider_example [] world_empty) = Inl IndexError
   \<and> IndexError \<noteq> TrainingError"
  by (simp add: empty_run provider_example_def np_array_def nrows_def)

text \<open>
  C1, amended. After every successful run over \<open>N\<close> documents the docstore has the keys
  \<open>str 0 .. str (N-1)\<close>, position \<open>i\<close> resolves to document \<open>i\<close> exactly for \<open>i < N\<close>, and
  loading what the run saved gives the same store. When no cache file existed before the
  run and the provider answers with one vector per text, the index holds exactly those
  \<open>N\<close> vectors in document order, so index position \<open>i\<close> is document \<open>i\<close>.
\<close>

theorem store_bijection:
  "store_in_vector_db prov docs w = (Inr vs, w') \<Longrightarrow>
   (\<forall>i. docstore_get vs i = (if i < length docs then Some (docs ! i) else None))
   \<and> map fst (docstore vs) = map py_str_nat [0..<length docs]
   \<and> distinct (map fst (docstore vs))
   \<and> load_faiss_index w' = Inr vs
   \<and> (\<forall>vectors. cache_file w = None \<and> prov (map page_content docs) = Some vectors
          \<and> length vectors = length docs
        \<longrightarrow> idx_vectors (index vs) = vectors \<and> ntotal (index vs) = length docs)"
proof -
  assume s: "store_in_vector_db prov docs w = (Inr vs, w')"
  from store_success [OF s] obtain a w1 idx where
    g: "get_vectors prov (map page_content docs) w = (Inr a, w1)"
    and b: "build_index a = Inr idx" and vs: "vs = make_vstore idx docs"
    and w': "w' = w1\<lparr>saved_index := Some vs\<rparr>"
    by blast
  from build_index_rows [OF b] obtain d rows where
    a: "a = Array2 d rows" and idx: "idx = trained_index d rows" by blast
  have 1: "\<forall>i. docstore_get vs i = (if i < length docs then Some (docs ! i) else None)"
    by (simp add: vs docstore_get_make)
  have 2: "map fst (docstore vs) = map py_str_nat [0..<length docs]"
    by (simp only: vs docstore_keys)
  have 3: "distinct (map fst (docstore vs))"
    by (simp only: 2 py_str_nat_distinct)
  have 4: "load_faiss_index w' = Inr vs" by (simp add: w' load_faiss_index_def)
  have 5: "\<forall>vectors. cache_file w = None \<and> prov (map page_content docs) = Some vectors
          \<and> length vectors = length docs
        \<longrightarrow> idx_vectors (index vs) = vectors \<and> ntotal (index vs) = length docs"
  proof (intro allI impI)
    fix vectors
    assume h: "cache_file w = None \<and> prov (map page_content docs) = Some vectors
          \<and> length vectors = length docs"
    then have "np_array vectors = Inr a" using get_vectors_fresh [OF _ _ g] by blast
    then have "rows = vectors" unfolding a by (rule np_array_rows)
    then show "idx_vectors (index vs) = vectors \<and> ntotal (index vs) = length docs"
      using h by (simp add: vs idx make_vstore_def trained_index_def ntotal_def)
  qed
  from 1 2 3 4 5 show ?thesis by blast
qed

theorem store_bijection_witness:
  "fst (store_in_vector_db provider_example docs_300 world_empty) = Inr fresh_vstore
   \<and> cache_file world_empty = None
   \<and> provider_example (map page_content docs_300) = Some vectors_300
   \<and> length vectors_300 = length docs_300
   \<and> docstore_get fresh_vstore 299 = Some (docs_300 ! 299)
   \<and> docstore_get fresh_vstore 300 = None
   \<and> ntotal (index fresh_vstore) = 300
   \<and> load_faiss_index (snd (store_in_vector_db provider_example docs_300 world_empty))
        = Inr fresh_vstore"
proof -
  let ?w = "snd (store_in_vector_db provider_example docs_300 world_empty)"
  have r: "store_in_vector_db provider_example docs_300 world_empty = (Inr fresh_vstore, ?w)"
    by (simp add: fresh_run)
  have e: "cache_file world_empty = None" by (simp add: world_empty_def)
  have p: "provider_example (map page_content docs_300) = Some vectors_300"
    by (simp add: provider_example_def vectors_300_def)
  have l: "length vectors_300 = length docs_300" by (simp add: vectors_300_def)
  note t = store_bijection [OF r]
  have a: "docstore_get fresh_vstore 299 = Some (docs_300 ! 299)"
    using t by (simp add: length_docs_300)
  have b: "docstore_get fresh_vstore 300 = None"
    using t by (simp add: length_docs_300)
  have c: "ntotal (index fresh_vstore) = 300"
    using t e p l by (simp add: length_docs_300)
  have d: "load_faiss_index ?w = Inr fresh_vstore" using t by blast
  have f: "fst (store_in_vector_db provider_example docs_300 world_empty) = Inr fresh_vstore"
    by (simp add: fresh_run)
  from f e p l a b c d show ?thesis by blast
qed

text \<open>
  A run over two documents with a cache file of 300 rows left by an earlier run: the
  index holds 300 vectors, position 2 of the index has no document, and the vector at
  position 0 is not the embedding of document 0.
\<close>

theorem stale_cache_counterexample:
  "cache_file world_cached = Some cached_300
   \<and> fst (store_in_vector_db provider_example docs_two world_cached) = Inr stale_vstore
   \<and> length docs_two = 2
   \<and> ntotal (index stale_vstore) = 300
   \<and> docstore_get stale_vstore 2 = None
   \<and> idx_vectors (index stale_vstore) ! 0 \<noteq> hd (the (provider_example (map page_content docs_two)))"
proof -
  have a: "cache_file world_cached = Some cached_300" by (simp add: world_cached_def)
  have b: "fst (store_in_vector_db provider_example docs_two world_cached) = Inr stale_vstore"
    by (simp add: stale_run)
  have c: "length docs_two = 2" by (simp add: docs_two_def)
  have d: "ntotal (index stale_vstore) = 300"
    by (simp add: stale_vstore_def make_vstore_def trained_index_def ntotal_def)
  have e: "docstore_get stale_vstore 2 = None"
    by (simp add: stale_vstore_def docstore_get_make c)
  have f: "idx_vectors (index stale_vstore) ! 0 = replicate 8 0"
    by (simp add: stale_vstore_def make_vstore_def trained_index_def)
  have g: "hd (the (provider_example (map page_content docs_two))) = replicate 8 10"
    by (simp add: provider_example_def docs_two_def)
  have "replicate 8 (0::real) \<noteq> replicate 8 10" by (simp add: replicate_eq_replicate)
  with a b c d e f g show ?thesis by simp
qed

lemma cached_run_index:
  "cache_file w = Some cached \<Longrightarrow>
   map_sum id index (fst (store_in_vector_db prov docs w)) = build_index cached"
  by (cases "build_index cached")
    (simp_all add: store_in_vector_db_def get_vectors_cached Let_def make_vstore_def)

text \<open>
  C10. With a pre-existing cache file the run never compares it with the documents: a
  successful run has one docstore entry per document under the keys \<open>str 0 .. str (N-1)\<close>
  and as many index vectors as the cache file has rows, without calling the provider;
  whether the run fails, with which error, and which index it builds is the same for
  every document list; and for some cache contents the vector count differs from the
  number of docstore entries.
\<close>

theorem stale_cache_unchecked:
  "(cache_file w = Some cached \<and> store_in_vector_db prov docs w = (Inr vs, w') \<longrightarrow>
      map fst (docstore vs) = map py_str_nat [0..<length docs]
      \<and> map snd (docstore vs) = docs
      \<and> ntotal (index vs) = nrows cached
      \<and> provider_calls w' = provider_calls w)
   \<and> (cache_file w = Some cached \<longrightarrow>
        map_sum id index (fst (store_in_vector_db prov docs w))
          = map_sum id index (fst (store_in_vector_db prov docs' w)))
   \<and> (\<exists>w0 docs0 vs0 w0'. cache_file w0 \<noteq> None
         \<and> store_in_vector_db prov docs0 w0 = (Inr vs0, w0')
         \<and> ntotal (index vs0) \<noteq> length (docstore vs0))"
proof (intro conjI impI)
  assume h: "cache_file w = Some cached \<and> store_in_vector_db prov docs w = (Inr vs, w')"
  from store_success [of prov docs w vs w'] h obtain a w1 idx where
    g: "get_vectors prov (map page_content docs) w = (Inr a, w1)"
    and b: "build_index a = Inr idx" and vs: "vs = make_vstore idx docs"
    and w': "w' = w1\<lparr>saved_index := Some vs\<rparr>"
    by blast
  have aw: "a = cached \<and> w1 = w" using g h by (simp add: get_vectors_cached)
  from build_index_rows [OF b] obtain d rows where
    a: "a = Array2 d rows" and idx: "idx = trained_index d rows" by blast
  show "map fst (docstore vs) = map py_str_nat [0..<length docs]"
    by (simp only: vs docstore_keys)
  show "map snd (docstore vs) = docs" by (simp only: vs docstore_values)
  show "ntotal (index vs) = nrows cached"
    using aw a by (auto simp: vs idx make_vstore_def trained_index_def ntotal_def nrows_def)
  show "provider_calls w' = provider_calls w" using aw by (simp add: w')
next
  assume h: "cache_file w = Some cached"
  show "map_sum id index (fst (store_in_vector_db prov docs w))
          = map_sum id index (fst (store_in_vector_db prov docs' w))"
    by (simp only: cached_run_index [OF h])
next
  let ?rows = "replicate 300 (replicate 8 (0::real))"
  let ?vs = "make_vstore (trained_index 8 ?rows) []"
  have "store_in_vector_db prov [] world_cached
          = (Inr ?vs, world_cached\<lparr>saved_index := Some ?vs\<rparr>)"
    by (simp add: store_in_vector_db_def get_vectors_cached build_index_ok Let_def
        world_cached_def cached_300_def)
  moreover have "ntotal (index ?vs) \<noteq> length (docstore ?vs)"
    by (simp add: make_vstore_def trained_index_def ntotal_def)
  moreover have "cache_file world_cached \<noteq> None" by (simp add: world_cached_def)
  ultimately show "\<exists>w0 docs0 vs0 w0'. cache_file w0 \<noteq> None
         \<and> store_in_vector_db prov docs0 w0 = (Inr vs0, w0')
         \<and> ntotal (index vs0) \<noteq> length (docstore vs0)"
    by blast
qed

theorem stale_cache_unchecked_witness:
  "cache_file world_cached = Some cached_300
   \<and> store_in_vector_db provider_example docs_two world_cached
        = (Inr stale_vstore, world_cached\<lparr>saved_index := Some stale_vstore\<rparr>)
   \<and> map snd (docstore stale_vstore) = docs_two
   \<and> ntotal (index stale_vstore) = nrows cached_300
   \<and> nrows cached_300 = 300
   \<and> length docs_two = 2
   \<and> map_sum id index (fst (store_in_vector_db provider_example docs_300 world_cached))
        = Inr (index stale_vstore)"
proof -
  have c: "cache_file world_cached = Some cached_300" by (simp add: world_cached_def)
  have n: "nrows cached_300 = 300" by (simp add: nrows_def cached_300_def)
  have l: "length docs_two = 2" by (simp add: docs_two_def)
  note t = stale_cache_unchecked [of world_cached cached_300 provider_example docs_two
      stale_vstore "world_cached\<lparr>saved_index := Some stale_vstore\<rparr>" docs_300]
  from t c stale_run have a: "map snd (docstore stale_vstore) = docs_two
      \<and> ntotal (index stale_vstore) = nrows cached_300" by blast
  from t c have "map_sum id index (fst (store_in_vector_db provider_example docs_300 world_cached))
        = map_sum id index (fst (store_in_vector_db provider_example docs_two world_cached))"
    by simp
  then have b: "map_sum id index (fst (store_in_vector_db provider_example docs_300 world_cached))
        = Inr (index stale_vstore)"
    by (simp add: stale_run)
  from c stale_run n l a b show ?thesis by blast
qed

end
